theory Spec2Isabelle
  imports Complex_Main "HOL-Library.Product_Lexorder" "HOL-Library.Multiset"
begin

section \<open>The HTTP boundary: GET /api/ai/predict (backend/routes/ai.js)\<close>

subsection \<open>Stored data\<close>

text \<open>
  A calendar date is the triple (year, month, day); the lexicographic order on the
  triple is the chronological order the store sorts by.  Decimal columns and JSON
  numbers are exact rationals.  A row of the query carries the calendar date as it is
  stored; the driver's passage through the server's time zone is not modelled.
\<close>

type_synonym date = "int \<times> nat \<times> nat"

text \<open>
  The columns of table \<open>transactions\<close> (migration 003) that the route reads:
  \<open>user_id\<close>, \<open>category\<close> (nullable), \<open>amount\<close> and \<open>date\<close>.
\<close>

record transaction_row =
  t_user_id :: int
  t_category :: "string option"
  t_amount :: rat
  t_date :: date

text \<open>The projection \<open>select('category', 'amount', 'date')\<close> of a transaction row.\<close>

record spending_row =
  s_category :: "string option"
  s_amount :: rat
  s_date :: date

text \<open>
  The columns of table \<open>predictions\<close> (migration 006) that the route writes; \<open>id\<close> and
  \<open>created_at\<close> are filled in by the store and read by nobody here.
\<close>

record prediction_row =
  p_user_id :: int
  p_category :: string
  p_predicted_amount :: rat
  p_month :: int
  p_year :: int

record database =
  transactions :: "transaction_row list"
  predictions :: "prediction_row list"

subsection \<open>JavaScript values of the request\<close>

text \<open>
  A string of the request is the list of its UTF-16 code units.  A query parameter is
  absent (\<open>None\<close>) or a string; parameters that the query parser turns into arrays or
  objects are left out.  \<open>month || fallback\<close> keeps a string that is truthy, that is
  non-empty; the fallback is a number read off the clock.
\<close>

type_synonym js_string = "nat list"

datatype jsval = JStr js_string | JNum int

definition or_default :: "js_string option \<Rightarrow> jsval \<Rightarrow> jsval" where
  "or_default q d = (case q of None \<Rightarrow> d | Some s \<Rightarrow> if s = [] then d else JStr s)"

text \<open>
  The number \<open>parseInt\<close> returns: NaN, an integer below 2^53 in magnitude, which a
  double holds exactly, or a double of magnitude 2^53 or more (infinity included), of
  which the model keeps only that it is that large.
\<close>

datatype jsnum = NaN | Whole int | Huge

definition to_jsnum :: "int \<Rightarrow> jsnum" where
  "to_jsnum n = (if \<bar>n\<bar> < 2 ^ 53 then Whole n else Huge)"

text \<open>
  \<open>parseInt\<close> without a radix: leading white space is skipped (the white space and line
  terminators of the language: U+0009 to U+000D, U+0020, U+00A0, U+1680, U+2000 to U+200A,
  U+2028, U+2029, U+202F, U+205F, U+3000, U+FEFF), one sign is read, a \<open>0x\<close>/\<open>0X\<close> prefix
  selects base 16, and the longest run of digits of the base is the value; no digit at
  all gives NaN.  A number argument is first printed; the numbers of this route are the
  clock's month and year, integers that print as their own decimal digits.
\<close>

definition is_space :: "nat \<Rightarrow> bool" where
  "is_space c = ((9 \<le> c \<and> c \<le> 13) \<or> c = 32 \<or> c = 160 \<or> c = 5760
     \<or> (8192 \<le> c \<and> c \<le> 8202) \<or> c = 8232 \<or> c = 8233 \<or> c = 8239 \<or> c = 8287
     \<or> c = 12288 \<or> c = 65279)"

definition digit_of :: "nat \<Rightarrow> nat" where
  "digit_of c =
     (if 48 \<le> c \<and> c \<le> 57 then c - 48
      else if 97 \<le> c \<and> c \<le> 122 then c - 87
      else if 65 \<le> c \<and> c \<le> 90 then c - 55
      else 36)"

definition digits_value :: "nat \<Rightarrow> js_string \<Rightarrow> int" where
  "digits_value r ds = foldl (\<lambda>acc c. acc * int r + int (digit_of c)) 0 ds"

definition parse_digits :: "nat \<Rightarrow> js_string \<Rightarrow> int option" where
  "parse_digits r s = (let z = takeWhile (\<lambda>c. digit_of c < r) s
     in if z = [] then None else Some (digits_value r z))"

text \<open>Code units 48, 120 and 88 are \<open>0\<close>, \<open>x\<close> and \<open>X\<close>; 45 and 43 are \<open>-\<close> and \<open>+\<close>.\<close>

fun parse_unsigned :: "js_string \<Rightarrow> int option" where
  "parse_unsigned (a # b # s) =
     (if a = 48 \<and> (b = 120 \<or> b = 88) then parse_digits 16 s
      else parse_digits 10 (a # b # s))"
| "parse_unsigned s = parse_digits 10 s"

definition signed :: "bool \<Rightarrow> int option \<Rightarrow> jsnum" where
  "signed neg v = (case v of None \<Rightarrow> NaN | Some n \<Rightarrow> to_jsnum (if neg then - n else n))"

fun parse_signed :: "js_string \<Rightarrow> jsnum" where
  "parse_signed [] = NaN"
| "parse_signed (c # s) =
     (if c = 45 then signed True (parse_unsigned s)
      else if c = 43 then signed False (parse_unsigned s)
      else signed False (parse_unsigned (c # s)))"

fun parseInt :: "jsval \<Rightarrow> jsnum" where
  "parseInt (JNum n) = Whole n"
| "parseInt (JStr s) = parse_signed (dropWhile is_space s)"

record clock =
  getMonth :: int
  getFullYear :: int

subsection \<open>The forecast engine as the route sees it\<close>

text \<open>
  The route posts \<open>{user_id, spending_data, target_month, target_year}\<close> to the
  prediction service and reads \<open>response.data\<close>.  A failed call throws, which is \<open>Inl\<close>.  The field
  \<open>predictions\<close> may be missing from the answer (\<open>None\<close>): the route tests it before use.
  The amount of a prediction is the decimal that JavaScript prints for the number of the
  answer, which is what the route relays and what it hands to the store.
\<close>

record ml_request =
  user_id :: int
  spending_data :: "spending_row list"
  target_month :: jsnum
  target_year :: jsnum

record ml_prediction =
  category :: string
  predicted_amount :: rat
  confidence :: rat

record ml_response =
  resp_predictions :: "ml_prediction list option"
  resp_method :: string
  resp_target_month :: int
  resp_target_year :: int

datatype ml_error = Request_failed

type_synonym engine = "ml_request \<Rightarrow> ml_error + ml_response"

subsection \<open>The route\<close>

text \<open>
  What \<open>res\<close> carries: the insufficient-data body
  \<open>{predictions: [], insufficient_data: true, current_count, required_count}\<close> (its
  \<open>message\<close> is fixed text), the engine's answer relayed as it is, or status 500.
\<close>

datatype http_response =
    Insufficient "ml_prediction list" bool nat nat
  | Relayed ml_response
  | Status500

record outcome =
  response :: http_response
  engine_calls :: "ml_request list"
  store :: database

definition MIN_TRANSACTIONS :: nat where
  "MIN_TRANSACTIONS = 15"

text \<open>
  \<open>where user_id = ? and amount < 0 order by date desc limit 1000\<close>.  The store may
  order rows of one date as it likes; the model keeps one fixed order among them.
\<close>

definition expenses_of :: "int \<Rightarrow> transaction_row list \<Rightarrow> transaction_row list" where
  "expenses_of uid ts = filter (\<lambda>t. t_user_id t = uid \<and> t_amount t < 0) ts"

definition select_row :: "transaction_row \<Rightarrow> spending_row" where
  "select_row t = \<lparr>s_category = t_category t, s_amount = t_amount t, s_date = t_date t\<rparr>"

definition order_by_date_desc :: "transaction_row list \<Rightarrow> transaction_row list" where
  "order_by_date_desc ts = rev (sort_key t_date ts)"

definition spending_query :: "database \<Rightarrow> int \<Rightarrow> spending_row list" where
  "spending_query db uid =
     map select_row (take 1000 (order_by_date_desc (expenses_of uid (transactions db))))"

text \<open>The user's expense rows that the limit of 1000 cuts off.\<close>

definition older_rows :: "database \<Rightarrow> int \<Rightarrow> spending_row list" where
  "older_rows db uid =
     map select_row (drop 1000 (order_by_date_desc (expenses_of uid (transactions db))))"

text \<open>
  The columns \<open>month\<close> and \<open>year\<close> are \<open>integer\<close> (migration 006), four bytes wide.  A
  statement that binds to such a column a number that is no integer of that range (NaN,
  a double beyond it) throws.
\<close>

definition int4 :: "int \<Rightarrow> bool" where
  "int4 n = (- 2147483648 \<le> n \<and> n \<le> 2147483647)"

definition bind_integer :: "jsnum \<Rightarrow> int option" where
  "bind_integer v = (case v of Whole n \<Rightarrow> if int4 n then Some n else None | _ \<Rightarrow> None)"

text \<open>
  The column \<open>predicted_amount\<close> is \<open>decimal(15, 2)\<close> (migration 006): the store rounds
  a number to two decimals, a tie away from zero, and refuses it when the rounded value
  has more than thirteen digits before the point.
\<close>

definition round_half_away :: "rat \<Rightarrow> int" where
  "round_half_away x = (if 0 \<le> x then \<lfloor>x + 1 / 2\<rfloor> else - \<lfloor>- x + 1 / 2\<rfloor>)"

definition round2 :: "rat \<Rightarrow> rat" where
  "round2 x = of_int (round_half_away (x * 100)) / 100"

definition decimal_15_2 :: "rat \<Rightarrow> rat option" where
  "decimal_15_2 x = (if \<bar>round2 x\<bar> < 10 ^ 13 then Some (round2 x) else None)"

text \<open>
  The column \<open>category\<close> is \<open>table.string('category')\<close>, whose length the migration
  leaves to the schema builder's default.  What such a column keeps of a string, and
  which strings it refuses (\<open>None\<close>), is the parameter \<open>col\<close> of the route.
\<close>

type_synonym string_column = "string \<Rightarrow> string option"

definition store_row :: "string_column \<Rightarrow> prediction_row \<Rightarrow> prediction_row option" where
  "store_row col r =
     (case (col (p_category r), decimal_15_2 (p_predicted_amount r)) of
        (Some c, Some a) \<Rightarrow> Some (r\<lparr>p_category := c, p_predicted_amount := a\<rparr>)
      | _ \<Rightarrow> None)"

text \<open>
  \<open>db('predictions').insert(records)\<close> is one statement: it appends what the table keeps
  of every record, or throws and appends nothing when the table refuses one of them.
\<close>

definition insert_rows ::
  "string_column \<Rightarrow> prediction_row list \<Rightarrow> prediction_row list \<Rightarrow> prediction_row list option" where
  "insert_rows col records rs = map_option (\<lambda>kept. rs @ kept) (those (map (store_row col) records))"

definition same_period :: "int \<Rightarrow> int \<Rightarrow> int \<Rightarrow> prediction_row \<Rightarrow> bool" where
  "same_period uid m y r = (p_user_id r = uid \<and> p_month r = m \<and> p_year r = y)"

definition delete_period :: "int \<Rightarrow> int \<Rightarrow> int \<Rightarrow> prediction_row list \<Rightarrow> prediction_row list" where
  "delete_period uid m y rs = filter (\<lambda>r. \<not> same_period uid m y r) rs"

definition prediction_record :: "int \<Rightarrow> int \<Rightarrow> int \<Rightarrow> ml_prediction \<Rightarrow> prediction_row" where
  "prediction_record uid m y pred =
     \<lparr>p_user_id = uid, p_category = category pred,
      p_predicted_amount = predicted_amount pred, p_month = m, p_year = y\<rparr>"

text \<open>
  The route, statement by statement.  The delete and the insert are two awaited
  statements outside any transaction: when the delete throws nothing has changed, and
  when the insert throws the rows of the period are already gone.  Either way the
  \<open>catch\<close> block answers 500.  \<open>userId\<close> is the id of the authenticated user, a key of table
  \<open>users\<close>.
\<close>

definition predict_route ::
  "string_column \<Rightarrow> engine \<Rightarrow> clock \<Rightarrow> database \<Rightarrow> int
     \<Rightarrow> js_string option \<Rightarrow> js_string option \<Rightarrow> outcome" where
  "predict_route col ml now db userId month year =
     (let targetMonth = or_default month (JNum (getMonth now + 2));
          targetYear = or_default year (JNum (getFullYear now));
          spendingData = spending_query db userId
      in if length spendingData < MIN_TRANSACTIONS then
           \<lparr>response = Insufficient [] True (length spendingData) MIN_TRANSACTIONS,
            engine_calls = [], store = db\<rparr>
         else
           let req = \<lparr>user_id = userId, spending_data = spendingData,
                      target_month = parseInt targetMonth, target_year = parseInt targetYear\<rparr>
           in case ml req of
                Inl e \<Rightarrow> \<lparr>response = Status500, engine_calls = [req], store = db\<rparr>
              | Inr data \<Rightarrow>
                  (case resp_predictions data of
                     None \<Rightarrow> \<lparr>response = Relayed data, engine_calls = [req], store = db\<rparr>
                   | Some preds \<Rightarrow>
                       if preds = [] then
                         \<lparr>response = Relayed data, engine_calls = [req], store = db\<rparr>
                       else
                         (case (bind_integer (parseInt targetMonth),
                                bind_integer (parseInt targetYear)) of
                            (Some m, Some y) \<Rightarrow>
                              (let cleared = delete_period userId m y (predictions db);
                                   predictionRecords = map (prediction_record userId m y) preds
                               in case insert_rows col predictionRecords cleared of
                                    None \<Rightarrow>
                                      \<lparr>response = Status500, engine_calls = [req],
                                       store = db\<lparr>predictions := cleared\<rparr>\<rparr>
                                  | Some rs \<Rightarrow>
                                      \<lparr>response = Relayed data, engine_calls = [req],
                                       store = db\<lparr>predictions := rs\<rparr>\<rparr>)
                          | _ \<Rightarrow> \<lparr>response = Status500, engine_calls = [req], store = db\<rparr>)))"

section \<open>The forecast engine (mlservice/prediction_service.py)\<close>

text \<open>
  The code of the prediction service is not part of the sources this development
  follows; its caller (the route above) and the repository's description of it are.  Its
  components are modelled from the specification, \<section>3 and \<section>4, one definition
  per step the specification names.  The only error of a forecast that the
  specification names is the malformed input.
\<close>

datatype engine_error = MalformedInputError

definition vocabulary :: "string list" where
  \<comment> \<open>Modelled from the spec: the category vocabulary of \<section>3, in its fixed order.\<close>
  "vocabulary = [''food'', ''transportation'', ''shopping'', ''entertainment'', ''utilities'',
                 ''healthcare'', ''education'', ''travel'', ''insurance'', ''other'']"

subsection \<open>Aggregator\<close>

type_synonym month_key = "int \<times> nat"

type_synonym matrix = "(month_key \<times> (string \<Rightarrow> rat)) list"

definition valid_date :: "date \<Rightarrow> bool" where
  \<comment> \<open>Modelled from the spec: a date must resolve to a valid (year, month) pair.\<close>
  "valid_date d = (1 \<le> fst (snd d) \<and> fst (snd d) \<le> 12)"

definition month_of :: "date \<Rightarrow> month_key" where
  \<comment> \<open>Modelled from the spec: truncation of a date to its (year, month).\<close>
  "month_of d = (fst d, fst (snd d))"

definition month_index :: "month_key \<Rightarrow> int" where
  \<comment> \<open>Modelled from the spec: the position of a month in the calendar, counted in months.\<close>
  "month_index k = fst k * 12 + int (snd k) - 1"

definition key_of_index :: "int \<Rightarrow> month_key" where
  \<comment> \<open>Modelled from the spec: the (year, month) at a calendar position.\<close>
  "key_of_index i = (i div 12, nat (i mod 12) + 1)"

definition magnitude :: "rat \<Rightarrow> rat" where
  \<comment> \<open>Modelled from the spec: the amount's sign normalised to positive.\<close>
  "magnitude a = \<bar>a\<bar>"

definition canonical :: "string option \<Rightarrow> string" where
  \<comment> \<open>Modelled from the spec: unknown and empty category strings map to \<open>other\<close>.\<close>
  "canonical c = (case c of None \<Rightarrow> ''other''
                  | Some s \<Rightarrow> if s \<in> set vocabulary then s else ''other'')"

definition month_row :: "spending_row list \<Rightarrow> month_key \<Rightarrow> string \<Rightarrow> rat" where
  \<comment> \<open>Modelled from the spec: the sum of the magnitudes per (month, category).\<close>
  "month_row txs k c =
     sum_list (map (\<lambda>t. magnitude (s_amount t))
       (filter (\<lambda>t. month_of (s_date t) = k \<and> canonical (s_category t) = c) txs))"

definition month_ix :: "spending_row \<Rightarrow> int" where
  \<comment> \<open>Modelled from the spec: the calendar position of a transaction's month.\<close>
  "month_ix t = month_index (month_of (s_date t))"

definition aggregate :: "spending_row list \<Rightarrow> engine_error + matrix" where
  \<comment> \<open>Modelled from the spec: the Aggregator of \<section>4.1.  One row per month from the
      earliest to the latest month present; a month without transactions gets the row of
      zeros that \<open>month_row\<close> sums to; a malformed date fails the request.\<close>
  "aggregate txs =
     (if list_all (\<lambda>t. valid_date (s_date t)) txs then
        (case map month_ix txs of
           [] \<Rightarrow> Inr []
         | i # js \<Rightarrow>
             Inr (map (\<lambda>j. (key_of_index j, month_row txs (key_of_index j)))
                    [fold min js i .. fold max js i]))
      else Inl MalformedInputError)"

subsection \<open>Feature Scaler\<close>

type_synonym scaler_state = "string \<Rightarrow> rat \<times> rat"

definition column :: "matrix \<Rightarrow> string \<Rightarrow> rat list" where
  \<comment> \<open>Modelled from the spec: the values of one category across all months.\<close>
  "column m c = map (\<lambda>r. snd r c) m"

definition fit :: "matrix \<Rightarrow> scaler_state" where
  \<comment> \<open>Modelled from the spec: \<open>fit\<close> of \<section>4.2, the per-category (min, max) across all
      months of the matrix; with no month at all there is nothing to scale and the pair
      is (0, 0).\<close>
  "fit m c = (case column m c of [] \<Rightarrow> (0, 0) | v # vs \<Rightarrow> (fold min vs v, fold max vs v))"

definition divide_checked :: "rat \<Rightarrow> rat \<Rightarrow> rat option" where
  \<comment> \<open>Modelled from the spec: division, undefined (\<open>None\<close>) at a zero denominator.\<close>
  "divide_checked a b = (if b = 0 then None else Some (a / b))"

definition clamp01 :: "rat \<Rightarrow> rat" where
  \<comment> \<open>Modelled from the spec: the clamp to [0, 1] of \<section>4.2.\<close>
  "clamp01 x = max 0 (min 1 x)"

definition transform_value :: "scaler_state \<Rightarrow> string \<Rightarrow> rat \<Rightarrow> rat option" where
  \<comment> \<open>Modelled from the spec: \<open>transform\<close> of \<section>4.2 on one value: (v - min) / (max - min)
      clamped to [0, 1], and 0.5 when max = min.\<close>
  "transform_value st c v =
     (case st c of (mn, mx) \<Rightarrow>
        if mx = mn then Some (1 / 2)
        else map_option clamp01 (divide_checked (v - mn) (mx - mn)))"

definition transform :: "matrix \<Rightarrow> scaler_state \<Rightarrow> (month_key \<times> (string \<Rightarrow> rat option)) list" where
  \<comment> \<open>Modelled from the spec: \<open>transform\<close> of \<section>4.2 on every value of the matrix.\<close>
  "transform m st = map (\<lambda>r. (fst r, \<lambda>c. transform_value st c (snd r c))) m"

definition inverse_transform :: "rat \<Rightarrow> string \<Rightarrow> scaler_state \<Rightarrow> rat" where
  \<comment> \<open>Modelled from the spec: \<open>inverse_transform\<close> of \<section>4.2, the algebraic inverse
      floored at 0.\<close>
  "inverse_transform x c st = (case st c of (mn, mx) \<Rightarrow> max 0 (x * (mx - mn) + mn))"

subsection \<open>Trend Fallback Estimator\<close>

definition mean :: "rat list \<Rightarrow> rat" where
  \<comment> \<open>Modelled from the spec: the arithmetic mean; the mean of no value is 0.\<close>
  "mean xs = (if xs = [] then 0 else sum_list xs / of_nat (length xs))"

definition seasonal_table :: "((string \<times> int) \<times> rat) list" where
  \<comment> \<open>Modelled from the spec: the seasonal multipliers of \<section>4.4.\<close>
  "seasonal_table =
     [((''shopping'', 11), 3 / 2), ((''shopping'', 12), 9 / 5),
      ((''travel'', 6), 7 / 5), ((''travel'', 7), 7 / 5), ((''travel'', 8), 7 / 5),
      ((''utilities'', 12), 6 / 5), ((''utilities'', 1), 6 / 5), ((''utilities'', 2), 6 / 5)]"

definition multiplier :: "string \<Rightarrow> int \<Rightarrow> rat" where
  \<comment> \<open>Modelled from the spec: every other (category, month) uses 1.0.\<close>
  "multiplier c tm = (case map_of seasonal_table (c, tm) of None \<Rightarrow> 1 | Some x \<Rightarrow> x)"

definition FALLBACK_CONFIDENCE :: rat where
  \<comment> \<open>Modelled from the spec: the confidence of the fallback path, 0.6.\<close>
  "FALLBACK_CONFIDENCE = 3 / 5"

definition trend_fallback :: "matrix \<Rightarrow> int \<Rightarrow> ml_prediction list" where
  \<comment> \<open>Modelled from the spec: the Trend Fallback of \<section>4.4, mean times multiplier for
      each vocabulary category, confidence 0.6.\<close>
  "trend_fallback m tm =
     map (\<lambda>c. \<lparr>category = c, predicted_amount = mean (column m c) * multiplier c tm,
                confidence = FALLBACK_CONFIDENCE\<rparr>) vocabulary"

subsection \<open>Sequence Forecaster and Forecast Orchestrator\<close>

text \<open>
  The trained network is a parameter: it maps the window of normalised months and the
  target (year, month) to one normalised value per category.
\<close>

type_synonym sequence_model =
  "(month_key \<times> (string \<Rightarrow> rat option)) list \<Rightarrow> int \<Rightarrow> int \<Rightarrow> string \<Rightarrow> rat"

definition W :: nat where
  \<comment> \<open>Modelled from the spec: the window length of \<section>4.3.\<close>
  "W = 12"

definition SEQUENCE_CONFIDENCE :: rat where
  \<comment> \<open>Modelled from the spec: the confidence of the sequence path, 0.8.\<close>
  "SEQUENCE_CONFIDENCE = 4 / 5"

definition sequence_forecast :: "sequence_model \<Rightarrow> matrix \<Rightarrow> int \<Rightarrow> int \<Rightarrow> ml_prediction list" where
  \<comment> \<open>Modelled from the spec: inference of \<section>4.3 on the most recent \<open>W\<close> months, the
      output denormalised by the scaler and floored at 0, confidence 0.8.\<close>
  "sequence_forecast model m ty tm =
     (let st = fit m;
          window = transform (drop (length m - W) m) st;
          out = model window ty tm
      in map (\<lambda>c. \<lparr>category = c, predicted_amount = inverse_transform (out c) c st,
                    confidence = SEQUENCE_CONFIDENCE\<rparr>) vocabulary)"

definition SEQUENCE_METHOD :: string where
  \<comment> \<open>Modelled from the spec: the method tag of the sequence path, \<section>3.\<close>
  "SEQUENCE_METHOD = ''sequence_model''"

definition FALLBACK_METHOD :: string where
  \<comment> \<open>Modelled from the spec: the method tag of the fallback path, \<section>3.\<close>
  "FALLBACK_METHOD = ''trend_fallback''"

definition forecast ::
  "sequence_model \<Rightarrow> spending_row list \<Rightarrow> int \<Rightarrow> int \<Rightarrow> engine_error + ml_response" where
  \<comment> \<open>Modelled from the spec: the Forecast Orchestrator of \<section>4.5, which chooses the
      path by the number of aggregated months and tags the answer with the method.\<close>
  "forecast model txs ty tm =
     (case aggregate txs of
        Inl e \<Rightarrow> Inl e
      | Inr m \<Rightarrow>
          Inr (if W \<le> length m then
                 \<lparr>resp_predictions = Some (sequence_forecast model m ty tm),
                  resp_method = SEQUENCE_METHOD,
                  resp_target_month = tm, resp_target_year = ty\<rparr>
               else
                 \<lparr>resp_predictions = Some (trend_fallback m tm),
                  resp_method = FALLBACK_METHOD,
                  resp_target_month = tm, resp_target_year = ty\<rparr>))"

section \<open>Sample data\<close>

text \<open>Fifteen expenses of user 7, all on one day, and fourteen of them.\<close>

definition one_day_rows :: "transaction_row list" where
  "one_day_rows = replicate 15
     \<lparr>t_user_id = 7, t_category = Some ''food'', t_amount = - 12, t_date = (2024, 3, 9)\<rparr>"

definition one_day_db :: database where
  "one_day_db = \<lparr>transactions = one_day_rows, predictions = []\<rparr>"

definition short_db :: database where
  "short_db = \<lparr>transactions = tl one_day_rows, predictions = []\<rparr>"

definition december :: clock where
  "december = \<lparr>getMonth = 11, getFullYear = 2025\<rparr>"

definition refusing_engine :: engine where
  "refusing_engine req = Inl Request_failed"

text \<open>A string column that keeps every string as it is.\<close>

definition keep_string :: string_column where
  "keep_string s = Some s"

text \<open>
  A store with the fifteen expenses, an income row of the same user and an expense of
  user 8, and with predictions already stored for two periods and two users; engines
  that answer one prediction for food: of 100, of 100.005, of 10^13, and none at all.
\<close>

definition stored_db :: database where
  "stored_db = \<lparr>transactions = one_day_rows @
       [\<lparr>t_user_id = 7, t_category = Some ''salary'', t_amount = 500, t_date = (2024, 4, 1)\<rparr>,
        \<lparr>t_user_id = 8, t_category = Some ''food'', t_amount = - 5, t_date = (2024, 5, 1)\<rparr>],
     predictions =
       [\<lparr>p_user_id = 7, p_category = ''food'', p_predicted_amount = 80, p_month = 13, p_year = 2025\<rparr>,
        \<lparr>p_user_id = 7, p_category = ''food'', p_predicted_amount = 70, p_month = 1, p_year = 2026\<rparr>,
        \<lparr>p_user_id = 8, p_category = ''food'', p_predicted_amount = 60, p_month = 13, p_year = 2025\<rparr>]\<rparr>"

definition food_prediction :: "rat \<Rightarrow> ml_prediction" where
  "food_prediction a = \<lparr>category = ''food'', predicted_amount = a, confidence = 3 / 5\<rparr>"

definition food_answer :: "ml_prediction list \<Rightarrow> ml_response" where
  "food_answer ps = \<lparr>resp_predictions = Some ps, resp_method = ''trend_fallback'',
     resp_target_month = 13, resp_target_year = 2025\<rparr>"

definition sample_engine :: engine where
  "sample_engine req = Inr (food_answer [food_prediction 100])"

definition half_cent_engine :: engine where
  "half_cent_engine req = Inr (food_answer [food_prediction (20001 / 200)])"

definition overflow_engine :: engine where
  "overflow_engine req = Inr (food_answer [food_prediction (10 ^ 13)])"

definition empty_engine :: engine where
  "empty_engine req = Inr (food_answer [])"

definition sample_request :: ml_request where
  "sample_request = \<lparr>user_id = 7, spending_data = spending_query stored_db 7,
      target_month = Whole 13, target_year = Whole 2025\<rparr>"

text \<open>
  Three months of history with shopping of 150, 200 and 250 and food of 40 a month, and
  the matrix of these months; a history with a gap of three months; a network that
  answers 0 everywhere.
\<close>

definition quarter_txs :: "spending_row list" where
  "quarter_txs =
     [\<lparr>s_category = Some ''shopping'', s_amount = - 150, s_date = (2024, 1, 10)\<rparr>,
      \<lparr>s_category = Some ''food'', s_amount = - 40, s_date = (2024, 1, 12)\<rparr>,
      \<lparr>s_category = Some ''shopping'', s_amount = - 200, s_date = (2024, 2, 10)\<rparr>,
      \<lparr>s_category = Some ''food'', s_amount = - 40, s_date = (2024, 2, 12)\<rparr>,
      \<lparr>s_category = Some ''shopping'', s_amount = - 250, s_date = (2024, 3, 10)\<rparr>,
      \<lparr>s_category = Some ''food'', s_amount = - 40, s_date = (2024, 3, 12)\<rparr>]"

definition quarter_matrix :: matrix where
  "quarter_matrix =
     map (\<lambda>k. (k, month_row quarter_txs k)) [(2024, 1), (2024, 2), (2024, 3)]"

definition gap_txs :: "spending_row list" where
  "gap_txs =
     [\<lparr>s_category = Some ''shopping'', s_amount = - 150, s_date = (2024, 4, 10)\<rparr>,
      \<lparr>s_category = None, s_amount = - 30, s_date = (2023, 12, 31)\<rparr>]"

definition zero_model :: sequence_model where
  "zero_model window ty tm c = 0"

section \<open>Properties of the boundary\<close>

lemma length_spending_query:
  "length (spending_query db uid) = min 1000 (length (expenses_of uid (transactions db)))"
  by (simp add: spending_query_def order_by_date_desc_def)

text \<open>
  C1.  With fewer than 15 stored expenses (rows of the user with amount < 0) the route
  answers the insufficient-data body with an empty predictions list, calls the engine
  not at all and leaves the store alone; with 15 or more it calls the engine exactly once,
  with the rows of the query, whatever months they fall in.
\<close>

theorem predict_gate:
  "(length (expenses_of uid (transactions db)) < 15 \<longrightarrow>
      response (predict_route col ml now db uid month year)
        = Insufficient [] True (length (expenses_of uid (transactions db))) 15
      \<and> engine_calls (predict_route col ml now db uid month year) = []
      \<and> store (predict_route col ml now db uid month year) = db)
   \<and> (15 \<le> length (expenses_of uid (transactions db)) \<longrightarrow>
      (\<exists>req. engine_calls (predict_route col ml now db uid month year) = [req]
         \<and> user_id req = uid \<and> spending_data req = spending_query db uid))"
  by (auto simp: predict_route_def Let_def length_spending_query MIN_TRANSACTIONS_def
           split: sum.splits option.splits)

theorem predict_gate_witness:
  "length (expenses_of 7 (transactions short_db)) < 15
   \<and> response (predict_route keep_string refusing_engine december short_db 7 None None)
       = Insufficient [] True 14 15
   \<and> engine_calls (predict_route keep_string refusing_engine december short_db 7 None None) = []
   \<and> 15 \<le> length (expenses_of 7 (transactions one_day_db))
   \<and> length (engine_calls
        (predict_route keep_string refusing_engine december one_day_db 7 None None)) = 1
   \<and> set (map (\<lambda>r. month_of (s_date r))
        (spending_query one_day_db 7)) = {(2024, 3)}"
proof -
  have short: "length (expenses_of 7 (transactions short_db)) = 14"
    by (simp add: short_db_def one_day_rows_def expenses_of_def)
  have long: "length (expenses_of 7 (transactions one_day_db)) = 15"
    by (simp add: one_day_db_def one_day_rows_def expenses_of_def)
  have months: "set (map (\<lambda>r. month_of (s_date r))
        (spending_query one_day_db 7)) = {(2024, 3)}"
    by (simp add: spending_query_def one_day_db_def one_day_rows_def expenses_of_def
          order_by_date_desc_def select_row_def month_of_def)
  from predict_gate [of 7 short_db keep_string refusing_engine december None None] short
  have a: "response (predict_route keep_string refusing_engine december short_db 7 None None)
             = Insufficient [] True 14 15
           \<and> engine_calls
               (predict_route keep_string refusing_engine december short_db 7 None None) = []"
    by simp
  from predict_gate [of 7 one_day_db keep_string refusing_engine december None None] long
  have b: "length (engine_calls
        (predict_route keep_string refusing_engine december one_day_db 7 None None)) = 1"
    by auto
  from short long months a b show ?thesis by simp
qed

subsection \<open>The query\<close>

lemma order_by_date_desc_sorted:
  "sorted_wrt (\<lambda>a b. t_date b \<le> t_date a) (order_by_date_desc ts)"
proof -
  have "sorted (map t_date (sort_key t_date ts))" by simp
  then have "sorted_wrt (\<lambda>a b. t_date a \<le> t_date b) (sort_key t_date ts)"
    by (simp add: sorted_map)
  then show ?thesis
    by (simp add: order_by_date_desc_def sorted_wrt_rev)
qed

lemma mset_order_by_date_desc: "mset (order_by_date_desc ts) = mset ts"
  by (simp add: order_by_date_desc_def)

lemma sorted_wrt_take_drop:
  assumes "sorted_wrt P xs"
  shows "\<forall>a\<in>set (take n xs). \<forall>b\<in>set (drop n xs). P a b"
proof -
  from assms have "sorted_wrt P (take n xs @ drop n xs)" by simp
  then show ?thesis unfolding sorted_wrt_append by blast
qed

lemma spending_query_negative:
  assumes "r \<in> set (spending_query db uid)"
  shows "s_amount r < 0"
proof -
  from assms obtain t
    where t: "t \<in> set (take 1000 (order_by_date_desc (expenses_of uid (transactions db))))"
      and r: "r = select_row t"
    by (auto simp: spending_query_def)
  from t have "t \<in> set (order_by_date_desc (expenses_of uid (transactions db)))"
    by (rule in_set_takeD)
  then have "t \<in># mset (order_by_date_desc (expenses_of uid (transactions db)))" by simp
  then have "t \<in> set (expenses_of uid (transactions db))"
    by (simp add: mset_order_by_date_desc)
  then show ?thesis using r by (simp add: expenses_of_def select_row_def)
qed

lemma spending_query_sorted:
  "sorted_wrt (\<lambda>a b. s_date b \<le> s_date a) (spending_query db uid)"
proof -
  have "sorted_wrt (\<lambda>a b. t_date b \<le> t_date a)
          (take 1000 (order_by_date_desc (expenses_of uid (transactions db))))"
    by (rule sorted_wrt_take [OF order_by_date_desc_sorted])
  then show ?thesis
    by (simp add: spending_query_def sorted_wrt_map select_row_def)
qed

lemma spending_query_most_recent:
  "mset (spending_query db uid) + mset (older_rows db uid)
     = mset (map select_row (expenses_of uid (transactions db)))"
  "\<forall>a\<in>set (spending_query db uid). \<forall>b\<in>set (older_rows db uid). s_date b \<le> s_date a"
proof -
  let ?xs = "order_by_date_desc (expenses_of uid (transactions db))"
  have "mset (spending_query db uid) + mset (older_rows db uid)
          = mset (map select_row (take 1000 ?xs @ drop 1000 ?xs))"
    unfolding spending_query_def older_rows_def by (simp only: map_append mset_append)
  also have "\<dots> = mset (map select_row (expenses_of uid (transactions db)))"
    by (simp add: mset_order_by_date_desc)
  finally show "mset (spending_query db uid) + mset (older_rows db uid)
     = mset (map select_row (expenses_of uid (transactions db)))" .
  have "\<forall>a\<in>set (take 1000 ?xs). \<forall>b\<in>set (drop 1000 ?xs). t_date b \<le> t_date a"
    by (rule sorted_wrt_take_drop [OF order_by_date_desc_sorted])
  then show "\<forall>a\<in>set (spending_query db uid). \<forall>b\<in>set (older_rows db uid). s_date b \<le> s_date a"
    by (auto simp: spending_query_def older_rows_def select_row_def)
qed


lemma engine_calls_cases:
  "req \<in> set (engine_calls (predict_route col ml now db uid month year)) \<Longrightarrow>
     spending_data req = spending_query db uid \<and> user_id req = uid
     \<and> target_month req = parseInt (or_default month (JNum (getMonth now + 2)))
     \<and> target_year req = parseInt (or_default year (JNum (getFullYear now)))"
  by (auto simp: predict_route_def Let_def split: if_splits sum.splits option.splits)

subsection \<open>What the Aggregator sums for rows of negative amount\<close>

lemma month_row_negated:
  "list_all (\<lambda>t. s_amount t < 0) txs \<Longrightarrow>
   month_row txs k c = sum_list (map (\<lambda>t. - s_amount t)
       (filter (\<lambda>t. month_of (s_date t) = k \<and> canonical (s_category t) = c) txs))"
  unfolding month_row_def
  by (induction txs) (auto simp: magnitude_def)

lemma month_row_nonneg: "0 \<le> month_row txs k c"
  unfolding month_row_def
  by (rule sum_list_nonneg) (auto simp: magnitude_def)

lemma aggregate_cells:
  "aggregate txs = Inr m \<Longrightarrow> r \<in> set m \<Longrightarrow> snd r = month_row txs (fst r)"
  by (auto simp: aggregate_def split: if_splits list.splits)

subsection \<open>The route on the sample store\<close>

lemma stored_db_expenses: "length (expenses_of 7 (transactions stored_db)) = 15"
  by (simp add: stored_db_def one_day_rows_def expenses_of_def)

lemma stored_db_route:
  "predict_route keep_string sample_engine december stored_db 7 None None
     = \<lparr>response = Relayed (food_answer [food_prediction 100]),
        engine_calls = [sample_request],
        store = stored_db\<lparr>predictions :=
          [\<lparr>p_user_id = 7, p_category = ''food'', p_predicted_amount = 70, p_month = 1, p_year = 2026\<rparr>,
           \<lparr>p_user_id = 8, p_category = ''food'', p_predicted_amount = 60, p_month = 13, p_year = 2025\<rparr>,
           \<lparr>p_user_id = 7, p_category = ''food'', p_predicted_amount = 100, p_month = 13, p_year = 2025\<rparr>]\<rparr>\<rparr>"
  by code_simp

lemma december_targets:
  "parseInt (or_default None (JNum (getMonth december + 2))) = Whole 13"
  "parseInt (or_default None (JNum (getFullYear december))) = Whole 2025"
  by (simp_all add: or_default_def december_def)

lemma december_month: "getMonth december + 2 = 13"
  by (simp add: december_def)

lemma bound_targets: "bind_integer (Whole 13) = Some 13" "bind_integer (Whole 2025) = Some 2025"
  by (simp_all add: bind_integer_def int4_def)

lemma kept_food:
  "those (map (store_row keep_string) (map (prediction_record 7 13 2025) [food_prediction 100]))
     = Some [\<lparr>p_user_id = 7, p_category = ''food'', p_predicted_amount = 100,
              p_month = 13, p_year = 2025\<rparr>]"
  by code_simp

text \<open>
  C2.  Every row of every request the route posts to the engine has amount < 0; the rows
  are at most 1000, in descending order of date, and together with the rows the limit
  cuts off they are exactly the user's expense rows, none of the cut-off rows being
  more recent than a forwarded one.  The Aggregator's magnitude of a forwarded amount
  is its negation, which is positive; every cell it sums over the forwarded rows, and
  every cell of the matrix it returns for them, is the sum of the negated amounts of the
  cell's rows and so not negative.
\<close>

theorem forwarded_rows_are_recent_expenses:
  assumes "req \<in> set (engine_calls (predict_route col ml now db uid month year))"
  shows "(\<forall>r\<in>set (spending_data req). s_amount r < 0
            \<and> magnitude (s_amount r) = - s_amount r \<and> 0 < magnitude (s_amount r))
       \<and> length (spending_data req) \<le> 1000
       \<and> sorted_wrt (\<lambda>a b. s_date b \<le> s_date a) (spending_data req)
       \<and> mset (spending_data req) + mset (older_rows db uid)
           = mset (map select_row (expenses_of uid (transactions db)))
       \<and> (\<forall>a\<in>set (spending_data req). \<forall>b\<in>set (older_rows db uid). s_date b \<le> s_date a)
       \<and> (\<forall>k c. 0 \<le> month_row (spending_data req) k c
             \<and> month_row (spending_data req) k c = sum_list (map (\<lambda>t. - s_amount t)
                 (filter (\<lambda>t. month_of (s_date t) = k \<and> canonical (s_category t) = c)
                    (spending_data req))))
       \<and> (\<forall>m. aggregate (spending_data req) = Inr m \<longrightarrow>
             (\<forall>r\<in>set m. \<forall>c. 0 \<le> snd r c
                \<and> snd r c = sum_list (map (\<lambda>t. - s_amount t)
                    (filter (\<lambda>t. month_of (s_date t) = fst r \<and> canonical (s_category t) = c)
                       (spending_data req)))))"
proof -
  from engine_calls_cases [OF assms] have sd: "spending_data req = spending_query db uid"
    by simp
  have neg: "\<forall>r\<in>set (spending_data req). s_amount r < 0"
    unfolding sd by (blast intro: spending_query_negative)
  then have all: "list_all (\<lambda>t. s_amount t < 0) (spending_data req)"
    by (simp add: list_all_iff)
  have len: "length (spending_data req) \<le> 1000"
    unfolding sd by (simp add: length_spending_query)
  have mag: "\<forall>r\<in>set (spending_data req). s_amount r < 0
            \<and> magnitude (s_amount r) = - s_amount r \<and> 0 < magnitude (s_amount r)"
    using neg by (auto simp: magnitude_def)
  have srt: "sorted_wrt (\<lambda>a b. s_date b \<le> s_date a) (spending_data req)"
    unfolding sd by (rule spending_query_sorted)
  have ms: "mset (spending_data req) + mset (older_rows db uid)
           = mset (map select_row (expenses_of uid (transactions db)))"
    unfolding sd by (rule spending_query_most_recent(1))
  have cut: "\<forall>a\<in>set (spending_data req). \<forall>b\<in>set (older_rows db uid). s_date b \<le> s_date a"
    unfolding sd by (rule spending_query_most_recent(2))
  have cell: "\<forall>k c. 0 \<le> month_row (spending_data req) k c
             \<and> month_row (spending_data req) k c = sum_list (map (\<lambda>t. - s_amount t)
                 (filter (\<lambda>t. month_of (s_date t) = k \<and> canonical (s_category t) = c)
                    (spending_data req)))"
  proof (intro allI conjI)
    fix k c
    show "0 \<le> month_row (spending_data req) k c" by (rule month_row_nonneg)
    show "month_row (spending_data req) k c = sum_list (map (\<lambda>t. - s_amount t)
                 (filter (\<lambda>t. month_of (s_date t) = k \<and> canonical (s_category t) = c)
                    (spending_data req)))"
      by (rule month_row_negated [OF all])
  qed
  have agg: "\<forall>m. aggregate (spending_data req) = Inr m \<longrightarrow>
             (\<forall>r\<in>set m. \<forall>c. 0 \<le> snd r c
                \<and> snd r c = sum_list (map (\<lambda>t. - s_amount t)
                    (filter (\<lambda>t. month_of (s_date t) = fst r \<and> canonical (s_category t) = c)
                       (spending_data req))))"
  proof (intro allI impI ballI)
    fix m r c
    assume "aggregate (spending_data req) = Inr m" "r \<in> set m"
    from aggregate_cells [OF this] have "snd r c = month_row (spending_data req) (fst r) c"
      by simp
    with cell [rule_format, of "fst r" c]
    show "0 \<le> snd r c
                \<and> snd r c = sum_list (map (\<lambda>t. - s_amount t)
                    (filter (\<lambda>t. month_of (s_date t) = fst r \<and> canonical (s_category t) = c)
                       (spending_data req)))"
      by simp
  qed
  show ?thesis
    by (rule conjI [OF mag conjI [OF len conjI [OF srt conjI [OF ms conjI [OF cut
          conjI [OF cell agg]]]]]])
qed

theorem forwarded_rows_are_recent_expenses_witness:
  "sample_request
     \<in> set (engine_calls (predict_route keep_string sample_engine december stored_db 7 None None))
   \<and> length (transactions stored_db) = 17
   \<and> length (spending_data sample_request) = 15
   \<and> list_all (\<lambda>r. s_amount r = - 12 \<and> magnitude (s_amount r) = 12)
        (spending_data sample_request)
   \<and> sorted_wrt (\<lambda>a b. s_date b \<le> s_date a) (spending_data sample_request)
   \<and> month_row (spending_data sample_request) (2024, 3) ''food'' = 180
   \<and> map_sum id (map (\<lambda>r. (fst r, snd r ''food''))) (aggregate (spending_data sample_request))
       = Inr [((2024, 3), 180)]"
proof -
  have h: "sample_request
     \<in> set (engine_calls (predict_route keep_string sample_engine december stored_db 7 None None))"
    by (simp add: stored_db_route)
  note c = forwarded_rows_are_recent_expenses [OF h]
  have n: "length (transactions stored_db) = 17"
    by (simp add: stored_db_def one_day_rows_def)
  have q: "spending_data sample_request
             = replicate 15 \<lparr>s_category = Some ''food'', s_amount = - 12, s_date = (2024, 3, 9)\<rparr>"
    by code_simp
  have l: "length (spending_data sample_request) = 15"
    unfolding q by simp
  from c have "\<forall>r\<in>set (spending_data sample_request).
      s_amount r < 0 \<and> magnitude (s_amount r) = - s_amount r" by blast
  then have a: "list_all (\<lambda>r. s_amount r = - 12 \<and> magnitude (s_amount r) = 12)
                  (spending_data sample_request)"
    unfolding q by (simp add: list_all_iff)
  from c have s: "sorted_wrt (\<lambda>a b. s_date b \<le> s_date a) (spending_data sample_request)"
    by blast
  have m: "month_row (spending_data sample_request) (2024, 3) ''food'' = 180"
    by code_simp
  have g: "map_sum id (map (\<lambda>r. (fst r, snd r ''food''))) (aggregate (spending_data sample_request))
       = Inr [((2024, 3), 180)]"
    by code_simp
  show ?thesis
    by (rule conjI [OF h conjI [OF n conjI [OF l conjI [OF a conjI [OF s conjI [OF m g]]]]]])
qed

subsection \<open>What the table keeps of the records\<close>

lemma those_Some_iff: "those xs = Some ys \<longleftrightarrow> xs = map Some ys"
  by (induction xs arbitrary: ys) (auto split: option.splits)

lemma store_row_keeps:
  assumes "store_row col r = Some r'"
  shows "p_user_id r' = p_user_id r" "p_month r' = p_month r" "p_year r' = p_year r"
    "col (p_category r) = Some (p_category r')"
    "p_predicted_amount r' = round2 (p_predicted_amount r)"
    "\<bar>round2 (p_predicted_amount r)\<bar> < 10 ^ 13"
  using assms
  by (auto simp: store_row_def decimal_15_2_def split: option.splits if_splits)

lemma kept_rows:
  assumes "those (map (store_row col) (map (prediction_record uid m y) preds)) = Some rows"
  shows "length rows = length preds"
    and "list_all (same_period uid m y) rows"
    and "map p_predicted_amount rows = map (\<lambda>p. round2 (predicted_amount p)) preds"
    and "map (\<lambda>r. Some (p_category r)) rows = map (\<lambda>p. col (category p)) preds"
proof -
  from assms have eq: "map (store_row col) (map (prediction_record uid m y) preds) = map Some rows"
    by (simp add: those_Some_iff)
  then show len: "length rows = length preds"
    by (metis length_map)
  have each: "store_row col (prediction_record uid m y (preds ! i)) = Some (rows ! i)"
    if "i < length preds" for i
    using that len arg_cong [OF eq, of "\<lambda>xs. xs ! i"] by simp
  show "list_all (same_period uid m y) rows"
    unfolding list_all_length
  proof (intro allI impI)
    fix i assume "i < length rows"
    with len have "i < length preds" by simp
    from store_row_keeps(1-3) [OF each [OF this]]
    show "same_period uid m y (rows ! i)"
      by (simp add: same_period_def prediction_record_def)
  qed
  show "map p_predicted_amount rows = map (\<lambda>p. round2 (predicted_amount p)) preds"
  proof (rule nth_equalityI)
    show "length (map p_predicted_amount rows) = length (map (\<lambda>p. round2 (predicted_amount p)) preds)"
      using len by simp
  next
    fix i assume "i < length (map p_predicted_amount rows)"
    with len have i: "i < length preds" by simp
    from store_row_keeps(5) [OF each [OF i]] i len
    show "map p_predicted_amount rows ! i = map (\<lambda>p. round2 (predicted_amount p)) preds ! i"
      by (simp add: prediction_record_def)
  qed
  show "map (\<lambda>r. Some (p_category r)) rows = map (\<lambda>p. col (category p)) preds"
  proof (rule nth_equalityI)
    show "length (map (\<lambda>r. Some (p_category r)) rows) = length (map (\<lambda>p. col (category p)) preds)"
      using len by simp
  next
    fix i assume "i < length (map (\<lambda>r. Some (p_category r)) rows)"
    with len have i: "i < length preds" by simp
    from store_row_keeps(4) [OF each [OF i]] i len
    show "map (\<lambda>r. Some (p_category r)) rows ! i = map (\<lambda>p. col (category p)) preds ! i"
      by (simp add: prediction_record_def)
  qed
qed

lemma filter_same_deleted: "filter (same_period uid m y) (delete_period uid m y rs) = []"
  by (induction rs) (auto simp: delete_period_def)

lemma filter_other_deleted:
  "filter (\<lambda>r. \<not> same_period uid m y r) (delete_period uid m y rs)
     = filter (\<lambda>r. \<not> same_period uid m y r) rs"
  by (simp add: delete_period_def)

lemma filter_all: "list_all P xs \<Longrightarrow> filter P xs = xs"
  by (induction xs) auto

lemma filter_none: "list_all P xs \<Longrightarrow> filter (\<lambda>x. \<not> P x) xs = []"
  by (induction xs) auto

text \<open>The stored predictions after the request, case by case.\<close>

lemma predictions_after:
  "predictions (store (predict_route col ml now db uid month year)) =
     (if 15 \<le> length (expenses_of uid (transactions db)) then
        (case ml \<lparr>user_id = uid, spending_data = spending_query db uid,
                   target_month = parseInt (or_default month (JNum (getMonth now + 2))),
                   target_year = parseInt (or_default year (JNum (getFullYear now)))\<rparr> of
           Inl e \<Rightarrow> predictions db
         | Inr data \<Rightarrow>
             (case resp_predictions data of
                None \<Rightarrow> predictions db
              | Some preds \<Rightarrow>
                  if preds = [] then predictions db
                  else
                    (case (bind_integer (parseInt (or_default month (JNum (getMonth now + 2)))),
                           bind_integer (parseInt (or_default year (JNum (getFullYear now))))) of
                       (Some m, Some y) \<Rightarrow>
                         (case those (map (store_row col) (map (prediction_record uid m y) preds)) of
                            None \<Rightarrow> delete_period uid m y (predictions db)
                          | Some rows \<Rightarrow> delete_period uid m y (predictions db) @ rows)
                     | _ \<Rightarrow> predictions db)))
      else predictions db)"
  by (auto simp: predict_route_def Let_def length_spending_query MIN_TRANSACTIONS_def
        insert_rows_def split: sum.splits option.splits)

lemma transactions_after:
  "transactions (store (predict_route col ml now db uid month year)) = transactions db"
  by (auto simp: predict_route_def Let_def split: sum.splits option.splits)

text \<open>
  C9.  When the \<open>month\<close> parameter is absent or the empty string, the target month is the
  clock's zero-based month plus 2, never reduced modulo 12: every request posted to the
  engine carries it, and when the engine answers a non-empty list, the year is a
  four-byte integer and the table accepts the records, the rows written to the store
  carry it.  In December (zero-based month 11) that is month 13.
\<close>

theorem default_target_month_unwrapped:
  assumes "month = None \<or> month = Some []"
  shows "(\<forall>req\<in>set (engine_calls (predict_route col ml now db uid month year)).
            target_month req = Whole (getMonth now + 2))
       \<and> (15 \<le> length (expenses_of uid (transactions db))
            \<and> ml \<lparr>user_id = uid, spending_data = spending_query db uid,
                   target_month = Whole (getMonth now + 2),
                   target_year = parseInt (or_default year (JNum (getFullYear now)))\<rparr> = Inr data
            \<and> int4 (getMonth now + 2)
            \<and> bind_integer (parseInt (or_default year (JNum (getFullYear now)))) = Some y
            \<and> resp_predictions data = Some preds \<and> preds \<noteq> []
            \<and> those (map (store_row col) (map (prediction_record uid (getMonth now + 2) y) preds))
                = Some rows
          \<longrightarrow> engine_calls (predict_route col ml now db uid month year)
                = [\<lparr>user_id = uid, spending_data = spending_query db uid,
                    target_month = Whole (getMonth now + 2),
                    target_year = parseInt (or_default year (JNum (getFullYear now)))\<rparr>]
             \<and> predictions (store (predict_route col ml now db uid month year))
                = delete_period uid (getMonth now + 2) y (predictions db) @ rows
             \<and> length rows = length preds
             \<and> list_all (\<lambda>r. p_user_id r = uid \<and> p_month r = getMonth now + 2 \<and> p_year r = y)
                  rows)"
proof -
  from assms have tm: "parseInt (or_default month (JNum (getMonth now + 2)))
                         = Whole (getMonth now + 2)"
    by (auto simp: or_default_def)
  have a: "\<forall>req\<in>set (engine_calls (predict_route col ml now db uid month year)).
            target_month req = Whole (getMonth now + 2)"
    using engine_calls_cases [of _ col ml now db uid month year] tm by auto
  have b: "engine_calls (predict_route col ml now db uid month year)
                = [\<lparr>user_id = uid, spending_data = spending_query db uid,
                    target_month = Whole (getMonth now + 2),
                    target_year = parseInt (or_default year (JNum (getFullYear now)))\<rparr>]
             \<and> predictions (store (predict_route col ml now db uid month year))
                = delete_period uid (getMonth now + 2) y (predictions db) @ rows
             \<and> length rows = length preds
             \<and> list_all (\<lambda>r. p_user_id r = uid \<and> p_month r = getMonth now + 2 \<and> p_year r = y)
                  rows"
    if h: "15 \<le> length (expenses_of uid (transactions db))"
      "ml \<lparr>user_id = uid, spending_data = spending_query db uid,
                   target_month = Whole (getMonth now + 2),
                   target_year = parseInt (or_default year (JNum (getFullYear now)))\<rparr> = Inr data"
      "int4 (getMonth now + 2)"
      "bind_integer (parseInt (or_default year (JNum (getFullYear now)))) = Some y"
      "resp_predictions data = Some preds" "preds \<noteq> []"
      "those (map (store_row col) (map (prediction_record uid (getMonth now + 2) y) preds))
                = Some rows"
  proof -
    from h(3) have bm: "bind_integer (Whole (getMonth now + 2)) = Some (getMonth now + 2)"
      by (simp add: bind_integer_def)
    from h have e: "engine_calls (predict_route col ml now db uid month year)
                = [\<lparr>user_id = uid, spending_data = spending_query db uid,
                    target_month = Whole (getMonth now + 2),
                    target_year = parseInt (or_default year (JNum (getFullYear now)))\<rparr>]"
      by (auto simp: predict_route_def Let_def length_spending_query MIN_TRANSACTIONS_def tm
            split: option.splits)
    from h bm have p: "predictions (store (predict_route col ml now db uid month year))
                = delete_period uid (getMonth now + 2) y (predictions db) @ rows"
      by (simp add: predictions_after tm)
    have "same_period uid (getMonth now + 2) y
            = (\<lambda>r. p_user_id r = uid \<and> p_month r = getMonth now + 2 \<and> p_year r = y)"
      by (simp add: fun_eq_iff same_period_def)
    with kept_rows(1,2) [OF h(7)] e p show ?thesis
      by simp
  qed
  from a b show ?thesis by blast
qed

theorem default_target_month_unwrapped_witness:
  "getMonth december = 11
   \<and> map target_month
       (engine_calls (predict_route keep_string sample_engine december stored_db 7 None None))
       = [Whole 13]
   \<and> predictions (store (predict_route keep_string sample_engine december stored_db 7 None None))
       = delete_period 7 13 2025 (predictions stored_db)
         @ [\<lparr>p_user_id = 7, p_category = ''food'', p_predicted_amount = 100,
             p_month = 13, p_year = 2025\<rparr>]"
proof -
  have g: "getMonth december = 11" by (simp add: december_def)
  have h1: "(None :: js_string option) = None \<or> (None :: js_string option) = Some []" by simp
  have h2: "15 \<le> length (expenses_of 7 (transactions stored_db))"
    by (simp add: stored_db_expenses)
  have h3: "sample_engine \<lparr>user_id = 7, spending_data = spending_query stored_db 7,
              target_month = Whole 13, target_year = Whole 2025\<rparr>
            = Inr (food_answer [food_prediction 100])"
    by (simp add: sample_engine_def)
  have h4: "int4 13" by (simp add: int4_def)
  have h5: "resp_predictions (food_answer [food_prediction 100]) = Some [food_prediction 100]"
           "[food_prediction 100] \<noteq> []"
    by (simp_all add: food_answer_def)
  note t = default_target_month_unwrapped [OF h1, where col = keep_string
      and ml = sample_engine and now = december and db = stored_db and uid = 7
      and year = None and y = 2025 and data = "food_answer [food_prediction 100]"
      and preds = "[food_prediction 100]"
      and rows = "[\<lparr>p_user_id = 7, p_category = ''food'', p_predicted_amount = 100,
             p_month = 13, p_year = 2025\<rparr>]", unfolded december_month december_targets]
  from t h2 h3 h4 h5 kept_food bound_targets
  have "engine_calls (predict_route keep_string sample_engine december stored_db 7 None None)
          = [\<lparr>user_id = 7, spending_data = spending_query stored_db 7,
              target_month = Whole 13, target_year = Whole 2025\<rparr>]
        \<and> predictions (store (predict_route keep_string sample_engine december stored_db 7 None None))
          = delete_period 7 13 2025 (predictions stored_db)
            @ [\<lparr>p_user_id = 7, p_category = ''food'', p_predicted_amount = 100,
             p_month = 13, p_year = 2025\<rparr>]"
    by blast
  with g show ?thesis by simp
qed

subsection \<open>The frame of the route\<close>

text \<open>
  C10, as the store has it.  The route never touches the transactions.  The stored
  predictions differ after the request only if the gate passed, the target month and
  year are four-byte integers and the engine answered a non-empty list.  When moreover
  the table accepts a record of every prediction, the route relays the answer and the
  rows of the requesting user and the target (month, year) are then what the table keeps
  of the records, one for each prediction in the order of the answer: the amount rounded
  to two decimals, the category as the string column keeps it.  The rows of every other
  user or period are as before in every case.  Targets that are no four-byte integers,
  an answer without predictions and an answer with an empty list leave the whole store
  as it was.
\<close>

theorem predict_frame:
  fixes ml :: engine and col now db uid month year
  defines "tm \<equiv> parseInt (or_default month (JNum (getMonth now + 2)))"
    and "ty \<equiv> parseInt (or_default year (JNum (getFullYear now)))"
  defines "req \<equiv> \<lparr>user_id = uid, spending_data = spending_query db uid,
                     target_month = tm, target_year = ty\<rparr>"
    and "out \<equiv> predict_route col ml now db uid month year"
  shows "transactions (store out) = transactions db
    \<and> (predictions (store out) \<noteq> predictions db \<longrightarrow>
         (\<exists>m y data preds. 15 \<le> length (expenses_of uid (transactions db))
            \<and> bind_integer tm = Some m \<and> bind_integer ty = Some y \<and> ml req = Inr data
            \<and> resp_predictions data = Some preds \<and> preds \<noteq> []))
    \<and> (\<forall>m y data preds rows. 15 \<le> length (expenses_of uid (transactions db))
            \<and> bind_integer tm = Some m \<and> bind_integer ty = Some y \<and> ml req = Inr data
            \<and> resp_predictions data = Some preds \<and> preds \<noteq> []
            \<and> those (map (store_row col) (map (prediction_record uid m y) preds)) = Some rows
          \<longrightarrow>
            response out = Relayed data
            \<and> filter (same_period uid m y) (predictions (store out)) = rows
            \<and> length rows = length preds
            \<and> map p_predicted_amount rows = map (\<lambda>p. round2 (predicted_amount p)) preds
            \<and> map (\<lambda>r. Some (p_category r)) rows = map (\<lambda>p. col (category p)) preds)
    \<and> (\<forall>m y. bind_integer tm = Some m \<and> bind_integer ty = Some y \<longrightarrow>
          filter (\<lambda>r. \<not> same_period uid m y r) (predictions (store out))
            = filter (\<lambda>r. \<not> same_period uid m y r) (predictions db))
    \<and> (bind_integer tm = None \<or> bind_integer ty = None \<longrightarrow> store out = db)
    \<and> (\<forall>data. ml req = Inr data
            \<and> (resp_predictions data = None \<or> resp_predictions data = Some []) \<longrightarrow>
          store out = db)"
proof -
  note after = predictions_after [of col ml now db uid month year, folded tm_def ty_def,
      folded req_def out_def]
  have a: "transactions (store out) = transactions db"
    by (simp add: out_def transactions_after)
  have b: "predictions (store out) \<noteq> predictions db \<longrightarrow>
         (\<exists>m y data preds. 15 \<le> length (expenses_of uid (transactions db))
            \<and> bind_integer tm = Some m \<and> bind_integer ty = Some y \<and> ml req = Inr data
            \<and> resp_predictions data = Some preds \<and> preds \<noteq> [])"
    unfolding after by (auto split: sum.splits option.splits if_splits)
  have c: "\<forall>m y data preds rows. 15 \<le> length (expenses_of uid (transactions db))
            \<and> bind_integer tm = Some m \<and> bind_integer ty = Some y \<and> ml req = Inr data
            \<and> resp_predictions data = Some preds \<and> preds \<noteq> []
            \<and> those (map (store_row col) (map (prediction_record uid m y) preds)) = Some rows
          \<longrightarrow>
            response out = Relayed data
            \<and> filter (same_period uid m y) (predictions (store out)) = rows
            \<and> length rows = length preds
            \<and> map p_predicted_amount rows = map (\<lambda>p. round2 (predicted_amount p)) preds
            \<and> map (\<lambda>r. Some (p_category r)) rows = map (\<lambda>p. col (category p)) preds"
  proof (intro allI impI, elim conjE)
    fix m y data preds rows
    assume h: "15 \<le> length (expenses_of uid (transactions db))"
      "bind_integer tm = Some m" "bind_integer ty = Some y" "ml req = Inr data"
      "resp_predictions data = Some preds" "preds \<noteq> []"
      "those (map (store_row col) (map (prediction_record uid m y) preds)) = Some rows"
    from h have p: "predictions (store out) = delete_period uid m y (predictions db) @ rows"
      unfolding after by simp
    from h have r: "response out = Relayed data"
      unfolding out_def
      by (simp add: predict_route_def Let_def length_spending_query MIN_TRANSACTIONS_def
            insert_rows_def tm_def [symmetric] ty_def [symmetric] req_def [symmetric])
    from kept_rows [OF h(7)] p r
    show "response out = Relayed data
            \<and> filter (same_period uid m y) (predictions (store out)) = rows
            \<and> length rows = length preds
            \<and> map p_predicted_amount rows = map (\<lambda>p. round2 (predicted_amount p)) preds
            \<and> map (\<lambda>r. Some (p_category r)) rows = map (\<lambda>p. col (category p)) preds"
      by (simp add: filter_same_deleted filter_all)
  qed
  have d: "\<forall>m y. bind_integer tm = Some m \<and> bind_integer ty = Some y \<longrightarrow>
          filter (\<lambda>r. \<not> same_period uid m y r) (predictions (store out))
            = filter (\<lambda>r. \<not> same_period uid m y r) (predictions db)"
  proof (intro allI impI, elim conjE)
    fix m y
    assume h: "bind_integer tm = Some m" "bind_integer ty = Some y"
    have "filter (\<lambda>r. \<not> same_period uid m y r) rows = []"
      if "those (map (store_row col) (map (prediction_record uid m y) preds)) = Some rows"
      for preds rows
      using kept_rows(2) [OF that] by (rule filter_none)
    with h show "filter (\<lambda>r. \<not> same_period uid m y r) (predictions (store out))
            = filter (\<lambda>r. \<not> same_period uid m y r) (predictions db)"
      unfolding after
      by (auto simp: filter_other_deleted split: sum.splits option.splits)
  qed
  have e: "bind_integer tm = None \<or> bind_integer ty = None \<longrightarrow> store out = db"
    unfolding out_def
    by (auto simp: predict_route_def Let_def tm_def ty_def split: sum.splits option.splits)
  have f: "\<forall>data. ml req = Inr data
            \<and> (resp_predictions data = None \<or> resp_predictions data = Some []) \<longrightarrow>
          store out = db"
    unfolding out_def req_def tm_def ty_def
    by (auto simp: predict_route_def Let_def split: sum.splits option.splits)
  show ?thesis
    by (rule conjI [OF a conjI [OF b conjI [OF c conjI [OF d conjI [OF e f]]]]])
qed

theorem predict_frame_witness:
  "response (predict_route keep_string sample_engine december stored_db 7 None None)
     = Relayed (food_answer [food_prediction 100])
   \<and> filter (same_period 7 13 2025)
       (predictions (store (predict_route keep_string sample_engine december stored_db 7 None None)))
     = [\<lparr>p_user_id = 7, p_category = ''food'', p_predicted_amount = 100,
         p_month = 13, p_year = 2025\<rparr>]
   \<and> filter (\<lambda>r. \<not> same_period 7 13 2025 r)
       (predictions (store (predict_route keep_string sample_engine december stored_db 7 None None)))
     = [\<lparr>p_user_id = 7, p_category = ''food'', p_predicted_amount = 70,
         p_month = 1, p_year = 2026\<rparr>,
        \<lparr>p_user_id = 8, p_category = ''food'', p_predicted_amount = 60,
         p_month = 13, p_year = 2025\<rparr>]
   \<and> predictions stored_db
     = [\<lparr>p_user_id = 7, p_category = ''food'', p_predicted_amount = 80,
         p_month = 13, p_year = 2025\<rparr>,
        \<lparr>p_user_id = 7, p_category = ''food'', p_predicted_amount = 70,
         p_month = 1, p_year = 2026\<rparr>,
        \<lparr>p_user_id = 8, p_category = ''food'', p_predicted_amount = 60,
         p_month = 13, p_year = 2025\<rparr>]
   \<and> store (predict_route keep_string empty_engine december stored_db 7 None None) = stored_db"
proof -
  have n: "15 \<le> length (expenses_of 7 (transactions stored_db))"
    by (simp add: stored_db_expenses)
  have e: "sample_engine \<lparr>user_id = 7, spending_data = spending_query stored_db 7,
             target_month = Whole 13, target_year = Whole 2025\<rparr>
           = Inr (food_answer [food_prediction 100])"
    by (simp add: sample_engine_def)
  have p: "resp_predictions (food_answer [food_prediction 100]) = Some [food_prediction 100]"
          "[food_prediction 100] \<noteq> []"
    by (simp_all add: food_answer_def)
  note f = predict_frame [of keep_string sample_engine december stored_db 7 None None,
      unfolded december_targets]
  from f n e p kept_food bound_targets
  have same: "response (predict_route keep_string sample_engine december stored_db 7 None None)
     = Relayed (food_answer [food_prediction 100])
    \<and> filter (same_period 7 13 2025)
       (predictions (store (predict_route keep_string sample_engine december stored_db 7 None None)))
     = [\<lparr>p_user_id = 7, p_category = ''food'', p_predicted_amount = 100,
         p_month = 13, p_year = 2025\<rparr>]"
    by blast
  from f bound_targets
  have other: "filter (\<lambda>r. \<not> same_period 7 13 2025 r)
       (predictions (store (predict_route keep_string sample_engine december stored_db 7 None None)))
     = filter (\<lambda>r. \<not> same_period 7 13 2025 r) (predictions stored_db)"
    by blast
  have before: "predictions stored_db
     = [\<lparr>p_user_id = 7, p_category = ''food'', p_predicted_amount = 80,
         p_month = 13, p_year = 2025\<rparr>,
        \<lparr>p_user_id = 7, p_category = ''food'', p_predicted_amount = 70,
         p_month = 1, p_year = 2026\<rparr>,
        \<lparr>p_user_id = 8, p_category = ''food'', p_predicted_amount = 60,
         p_month = 13, p_year = 2025\<rparr>]"
    by (simp add: stored_db_def)
  have ee: "empty_engine \<lparr>user_id = 7, spending_data = spending_query stored_db 7,
             target_month = Whole 13, target_year = Whole 2025\<rparr> = Inr (food_answer [])"
       "resp_predictions (food_answer []) = Some []"
    by (simp_all add: empty_engine_def food_answer_def)
  from predict_frame [of keep_string empty_engine december stored_db 7 None None,
      unfolded december_targets] ee
  have intact: "store (predict_route keep_string empty_engine december stored_db 7 None None)
                  = stored_db"
    by blast
  from same other before intact show ?thesis
    by (simp add: same_period_def)
qed

text \<open>
  The sample store in December.  An answer of 100.005 for food is relayed, and stored as
  100.01.  An answer of 10^13, which the column refuses, is answered with status 500, and
  the row that was stored for the period is gone with nothing in its place.
\<close>

theorem stored_rows_differ_from_returned_predictions:
  "resp_predictions (food_answer [food_prediction (20001 / 200)])
     = Some [food_prediction (20001 / 200)]
   \<and> response (predict_route keep_string half_cent_engine december stored_db 7 None None)
     = Relayed (food_answer [food_prediction (20001 / 200)])
   \<and> map p_predicted_amount (filter (same_period 7 13 2025)
       (predictions (store
          (predict_route keep_string half_cent_engine december stored_db 7 None None))))
     = [10001 / 100]
   \<and> response (predict_route keep_string overflow_engine december stored_db 7 None None)
     = Status500
   \<and> filter (same_period 7 13 2025)
       (predictions (store
          (predict_route keep_string overflow_engine december stored_db 7 None None)))
     = []
   \<and> filter (same_period 7 13 2025) (predictions stored_db)
     = [\<lparr>p_user_id = 7, p_category = ''food'', p_predicted_amount = 80,
         p_month = 13, p_year = 2025\<rparr>]"
  by code_simp

text \<open>
  When the table refuses one of the records the insert throws after the delete has
  run: the request is answered 500 and the period is left without rows.
\<close>

lemma failed_insert_leaves_period_empty:
  fixes ml :: engine
  assumes "15 \<le> length (expenses_of uid (transactions db))"
    and "bind_integer (parseInt (or_default month (JNum (getMonth now + 2)))) = Some m"
    and "bind_integer (parseInt (or_default year (JNum (getFullYear now)))) = Some y"
    and "ml \<lparr>user_id = uid, spending_data = spending_query db uid,
              target_month = parseInt (or_default month (JNum (getMonth now + 2))),
              target_year = parseInt (or_default year (JNum (getFullYear now)))\<rparr> = Inr data"
    and "resp_predictions data = Some preds" and "preds \<noteq> []"
    and "those (map (store_row col) (map (prediction_record uid m y) preds)) = None"
  shows "response (predict_route col ml now db uid month year) = Status500"
    and "predictions (store (predict_route col ml now db uid month year))
           = delete_period uid m y (predictions db)"
  using assms
  by (auto simp: predict_route_def Let_def length_spending_query MIN_TRANSACTIONS_def
        insert_rows_def)

section \<open>Properties of the engine\<close>

subsection \<open>Months and their calendar positions\<close>

lemma month_index_key_of_index: "month_index (key_of_index j) = j"
  by (simp add: month_index_def key_of_index_def)

lemma key_of_index_month_index:
  assumes "1 \<le> snd k" and "snd k \<le> 12"
  shows "key_of_index (month_index k) = k"
proof -
  obtain y mo where k: "k = (y, mo)" by (cases k)
  define n where "n = int mo"
  from assms k have n: "1 \<le> n" "n \<le> 12" by (simp_all add: n_def)
  then have "(y * 12 + n - 1) div 12 = y" "(y * 12 + n - 1) mod 12 = n - 1"
    by presburger+
  with assms k show ?thesis by (simp add: month_index_def key_of_index_def n_def)
qed

lemma key_of_index_valid:
  "Suc 0 \<le> snd (key_of_index j)" "snd (key_of_index j) \<le> 12"
proof -
  have "0 \<le> j mod 12" "j mod 12 < 12" by simp_all
  then show "Suc 0 \<le> snd (key_of_index j)" "snd (key_of_index j) \<le> 12"
    by (simp_all add: key_of_index_def)
qed

lemma inj_key_of_index: "inj_on key_of_index A"
  by (rule inj_on_inverseI [where g = month_index]) (rule month_index_key_of_index)

subsection \<open>The Aggregator\<close>

lemma fold_min_Min: "fold min js (i :: int) = Min (set (i # js))"
  by (simp only: Min.set_eq_fold)

lemma fold_max_Max: "fold max js (i :: int) = Max (set (i # js))"
  by (simp only: Max.set_eq_fold)

lemma aggregate_rows:
  assumes "aggregate txs = Inr m" and "txs \<noteq> []"
  shows "m = map (\<lambda>j. (key_of_index j, month_row txs (key_of_index j)))
               [Min (month_ix ` set txs) .. Max (month_ix ` set txs)]"
proof -
  from assms(2) obtain t ts where txs: "txs = t # ts" by (cases txs) auto
  have s: "set (month_ix t # map month_ix ts) = month_ix ` set txs"
    by (simp add: txs)
  from assms(1) have "m = map (\<lambda>j. (key_of_index j, month_row txs (key_of_index j)))
       [fold min (map month_ix ts) (month_ix t) .. fold max (map month_ix ts) (month_ix t)]"
    by (auto simp: aggregate_def txs split: if_splits)
  then show ?thesis
    by (simp only: fold_min_Min fold_max_Max s)
qed

lemma aggregate_empty: "aggregate [] = Inr []"
  by (simp add: aggregate_def)

lemma aggregate_total:
  "list_all (\<lambda>t. valid_date (s_date t)) txs \<Longrightarrow> \<exists>m. aggregate txs = Inr m"
  by (auto simp: aggregate_def split: list.splits)

lemma aggregate_valid:
  "aggregate txs = Inr m \<Longrightarrow> list_all (\<lambda>t. valid_date (s_date t)) txs"
  by (auto simp: aggregate_def split: if_splits)

lemma month_row_absent:
  assumes "\<forall>t\<in>set txs. month_of (s_date t) \<noteq> k"
  shows "month_row txs k c = 0"
proof -
  from assms
  have "filter (\<lambda>t. month_of (s_date t) = k \<and> canonical (s_category t) = c) txs = []"
    by (simp add: filter_empty_conv)
  then show ?thesis by (simp add: month_row_def)
qed

lemma aggregate_range:
  assumes "aggregate txs = Inr m" and "txs \<noteq> []"
  shows "map (\<lambda>r. month_index (fst r)) m
           = [Min (month_ix ` set txs) .. Max (month_ix ` set txs)]
       \<and> (\<forall>r\<in>set m. 1 \<le> snd (fst r) \<and> snd (fst r) \<le> 12 \<and> snd r = month_row txs (fst r))
       \<and> distinct (map fst m)
       \<and> (\<forall>k. 1 \<le> snd k \<and> snd k \<le> 12
              \<and> Min (month_ix ` set txs) \<le> month_index k
              \<and> month_index k \<le> Max (month_ix ` set txs)
            \<longrightarrow> k \<in> set (map fst m))
       \<and> (\<forall>r\<in>set m. (\<forall>t\<in>set txs. month_of (s_date t) \<noteq> fst r) \<longrightarrow> (\<forall>c. snd r c = 0))
       \<and> (\<forall>t\<in>set txs. month_of (s_date t) \<in> set (map fst m))"
proof -
  let ?lo = "Min (month_ix ` set txs)" and ?hi = "Max (month_ix ` set txs)"
  note m = aggregate_rows [OF assms]
  have keys: "map fst m = map key_of_index [?lo .. ?hi]"
    by (subst m) (simp add: comp_def)
  have a: "map (\<lambda>r. month_index (fst r)) m = [?lo .. ?hi]"
    by (subst m) (simp add: comp_def month_index_key_of_index)
  have b: "\<forall>r\<in>set m. 1 \<le> snd (fst r) \<and> snd (fst r) \<le> 12 \<and> snd r = month_row txs (fst r)"
    by (subst m) (auto simp: key_of_index_valid)
  have c: "distinct (map fst m)"
    unfolding keys by (simp add: distinct_map inj_key_of_index)
  have d: "k \<in> set (map fst m)"
    if "1 \<le> snd k" "snd k \<le> 12" "?lo \<le> month_index k" "month_index k \<le> ?hi" for k
  proof -
    from that have "month_index k \<in> set [?lo .. ?hi]" by simp
    then have "key_of_index (month_index k) \<in> set (map fst m)"
      unfolding keys by (simp only: set_map image_eqI)
    with that show ?thesis by (simp add: key_of_index_month_index)
  qed
  have e: "\<forall>r\<in>set m. (\<forall>t\<in>set txs. month_of (s_date t) \<noteq> fst r) \<longrightarrow> (\<forall>c. snd r c = 0)"
    using b by (auto simp: month_row_absent)
  have f: "month_of (s_date t) \<in> set (map fst m)" if t: "t \<in> set txs" for t
  proof -
    from aggregate_valid [OF assms(1)] t have v: "valid_date (s_date t)"
      by (simp add: list_all_iff)
    have fin: "finite (month_ix ` set txs)" by simp
    from t have mem: "month_ix t \<in> month_ix ` set txs" by simp
    have "?lo \<le> month_ix t" "month_ix t \<le> ?hi"
      using Min_le [OF fin mem] Max_ge [OF fin mem] by simp_all
    with v show ?thesis
      by (intro d) (simp_all add: valid_date_def month_of_def month_ix_def)
  qed
  from a b c d e f show ?thesis by blast
qed

lemma aggregate_distinct:
  assumes "aggregate txs = Inr m"
  shows "distinct (map fst m)"
proof (cases "txs = []")
  case True
  with assms show ?thesis by (simp add: aggregate_empty)
next
  case False
  from aggregate_range [OF assms False] show ?thesis by blast
qed

lemma months_of_matrix:
  "aggregate txs = Inr m \<Longrightarrow> card (set (map fst m)) = length m"
  using distinct_card [OF aggregate_distinct] by fastforce

text \<open>
  C5.  The matrix of an empty list is empty.  For a non-empty list of transactions with
  well-formed dates the Aggregator returns a matrix whose keys are, in order and each
  once, the calendar months from the earliest to the latest month of the input: every
  month of that range is a key, every month of a transaction is a key, each row holds the
  sums of its month, and the row of a month without transactions is zero in every
  category.
\<close>

theorem aggregate_covers_every_month:
  "(txs = [] \<longrightarrow> aggregate txs = Inr [])
   \<and> (txs \<noteq> [] \<and> list_all (\<lambda>t. valid_date (s_date t)) txs \<longrightarrow>
        (\<exists>m. aggregate txs = Inr m
           \<and> map (\<lambda>r. month_index (fst r)) m
               = [Min (month_ix ` set txs) .. Max (month_ix ` set txs)]
           \<and> (\<forall>r\<in>set m. 1 \<le> snd (fst r) \<and> snd (fst r) \<le> 12
                 \<and> snd r = month_row txs (fst r))
           \<and> distinct (map fst m)
           \<and> (\<forall>k. 1 \<le> snd k \<and> snd k \<le> 12
                  \<and> Min (month_ix ` set txs) \<le> month_index k
                  \<and> month_index k \<le> Max (month_ix ` set txs)
                \<longrightarrow> k \<in> set (map fst m))
           \<and> (\<forall>r\<in>set m. (\<forall>t\<in>set txs. month_of (s_date t) \<noteq> fst r)
                 \<longrightarrow> (\<forall>c. snd r c = 0))
           \<and> (\<forall>t\<in>set txs. month_of (s_date t) \<in> set (map fst m))))"
proof (intro conjI impI)
  assume "txs = []"
  then show "aggregate txs = Inr []" by (simp add: aggregate_empty)
next
  assume a: "txs \<noteq> [] \<and> list_all (\<lambda>t. valid_date (s_date t)) txs"
  then obtain m where m: "aggregate txs = Inr m"
    using aggregate_total by blast
  from a have ne: "txs \<noteq> []" by simp
  from m aggregate_range [OF m ne]
  show "\<exists>m. aggregate txs = Inr m
           \<and> map (\<lambda>r. month_index (fst r)) m
               = [Min (month_ix ` set txs) .. Max (month_ix ` set txs)]
           \<and> (\<forall>r\<in>set m. 1 \<le> snd (fst r) \<and> snd (fst r) \<le> 12
                 \<and> snd r = month_row txs (fst r))
           \<and> distinct (map fst m)
           \<and> (\<forall>k. 1 \<le> snd k \<and> snd k \<le> 12
                  \<and> Min (month_ix ` set txs) \<le> month_index k
                  \<and> month_index k \<le> Max (month_ix ` set txs)
                \<longrightarrow> k \<in> set (map fst m))
           \<and> (\<forall>r\<in>set m. (\<forall>t\<in>set txs. month_of (s_date t) \<noteq> fst r)
                 \<longrightarrow> (\<forall>c. snd r c = 0))
           \<and> (\<forall>t\<in>set txs. month_of (s_date t) \<in> set (map fst m))"
    by (intro exI [of _ m] conjI) blast+
qed

theorem aggregate_covers_every_month_witness:
  "gap_txs \<noteq> [] \<and> list_all (\<lambda>t. valid_date (s_date t)) gap_txs
   \<and> map_sum id (map fst) (aggregate gap_txs)
       = Inr [(2023, 12), (2024, 1), (2024, 2), (2024, 3), (2024, 4)]
   \<and> map_sum id (map (\<lambda>r. map (snd r) vocabulary)) (aggregate gap_txs)
       = Inr [[0, 0, 0, 0, 0, 0, 0, 0, 0, 30], [0, 0, 0, 0, 0, 0, 0, 0, 0, 0],
              [0, 0, 0, 0, 0, 0, 0, 0, 0, 0], [0, 0, 0, 0, 0, 0, 0, 0, 0, 0],
              [0, 0, 150, 0, 0, 0, 0, 0, 0, 0]]
   \<and> (\<exists>m. aggregate gap_txs = Inr m \<and> distinct (map fst m)
          \<and> (2024, 2) \<in> set (map fst m))"
proof -
  have ne: "gap_txs \<noteq> []" by (simp add: gap_txs_def)
  have v: "list_all (\<lambda>t. valid_date (s_date t)) gap_txs"
    by (simp add: gap_txs_def valid_date_def)
  have keys: "map_sum id (map fst) (aggregate gap_txs)
       = Inr [(2023, 12), (2024, 1), (2024, 2), (2024, 3), (2024, 4)]"
    by code_simp
  have cells: "map_sum id (map (\<lambda>r. map (snd r) vocabulary)) (aggregate gap_txs)
       = Inr [[0, 0, 0, 0, 0, 0, 0, 0, 0, 30], [0, 0, 0, 0, 0, 0, 0, 0, 0, 0],
              [0, 0, 0, 0, 0, 0, 0, 0, 0, 0], [0, 0, 0, 0, 0, 0, 0, 0, 0, 0],
              [0, 0, 150, 0, 0, 0, 0, 0, 0, 0]]"
    by code_simp
  from aggregate_covers_every_month [of gap_txs] ne v
  obtain m where m: "aggregate gap_txs = Inr m" and d: "distinct (map fst m)"
    by blast
  from keys m have "(2024, 2) \<in> set (map fst m)" by simp
  with m d have "\<exists>m. aggregate gap_txs = Inr m \<and> distinct (map fst m)
          \<and> (2024, 2) \<in> set (map fst m)" by blast
  with ne v keys cells show ?thesis by blast
qed

subsection \<open>The Trend Fallback\<close>

lemma category_trend: "map category (trend_fallback m tm) = vocabulary"
  by (simp add: trend_fallback_def comp_def)

lemma confidence_trend: "p \<in> set (trend_fallback m tm) \<Longrightarrow> confidence p = 3 / 5"
  by (auto simp: trend_fallback_def FALLBACK_CONFIDENCE_def)

lemma forecast_short:
  assumes "aggregate txs = Inr m" and "length m < 12"
  shows "forecast model txs ty tm
           = Inr \<lparr>resp_predictions = Some (trend_fallback m tm),
                  resp_method = ''trend_fallback'',
                  resp_target_month = tm, resp_target_year = ty\<rparr>"
  using assms by (simp add: forecast_def W_def FALLBACK_METHOD_def)

text \<open>
  C8.  The Trend Fallback answers one prediction per vocabulary category, whose amount
  is the mean of the category's monthly values times the multiplier of (category,
  target month); the multiplier is 1 where the table has no entry.  For a history of
  exactly three months whose shopping values have mean 200 and target month December,
  the orchestrator answers the Trend Fallback's list, in which shopping is predicted at
  360.
\<close>

theorem trend_is_mean_times_multiplier:
  "map category (trend_fallback m tm) = vocabulary
   \<and> (\<forall>p\<in>set (trend_fallback m tm).
        predicted_amount p = mean (column m (category p)) * multiplier (category p) tm)
   \<and> (\<forall>c. map_of seasonal_table (c, tm) = None \<longrightarrow> multiplier c tm = 1)
   \<and> (aggregate txs = Inr m \<and> length m = 3 \<and> mean (column m ''shopping'') = 200 \<longrightarrow>
        (\<exists>r. forecast model txs ty 12 = Inr r
           \<and> resp_predictions r = Some (trend_fallback m 12))
        \<and> \<lparr>category = ''shopping'', predicted_amount = 360, confidence = 3 / 5\<rparr>
             \<in> set (trend_fallback m 12))"
proof -
  have a: "\<forall>p\<in>set (trend_fallback m tm).
        predicted_amount p = mean (column m (category p)) * multiplier (category p) tm"
    by (auto simp: trend_fallback_def)
  have b: "\<forall>c. map_of seasonal_table (c, tm) = None \<longrightarrow> multiplier c tm = 1"
    by (simp add: multiplier_def)
  have mu: "multiplier ''shopping'' 12 = 9 / 5"
    by (simp add: multiplier_def seasonal_table_def)
  have v: "''shopping'' \<in> set vocabulary" by (simp add: vocabulary_def)
  have c: "\<lparr>category = ''shopping'', predicted_amount = 360, confidence = 3 / 5\<rparr>
          \<in> set (trend_fallback m 12)" if "mean (column m ''shopping'') = 200"
  proof -
    have "\<lparr>category = ''shopping'',
           predicted_amount = mean (column m ''shopping'') * multiplier ''shopping'' 12,
           confidence = FALLBACK_CONFIDENCE\<rparr> \<in> set (trend_fallback m 12)"
      unfolding trend_fallback_def using v by (simp only: set_map image_eqI)
    then show ?thesis by (simp add: that mu FALLBACK_CONFIDENCE_def)
  qed
  have d: "\<exists>r. forecast model txs ty 12 = Inr r
           \<and> resp_predictions r = Some (trend_fallback m 12)"
    if "aggregate txs = Inr m" "length m = 3"
    using that by (simp add: forecast_short)
  from category_trend [of m tm] a b c d show ?thesis by blast
qed

theorem trend_is_mean_times_multiplier_witness:
  "map_sum id length (aggregate quarter_txs) = Inr 3
   \<and> map_sum id (\<lambda>m. mean (column m ''shopping'')) (aggregate quarter_txs) = Inr 200
   \<and> (\<exists>r ps. forecast zero_model quarter_txs 2024 12 = Inr r
         \<and> resp_predictions r = Some ps
         \<and> \<lparr>category = ''shopping'', predicted_amount = 360, confidence = 3 / 5\<rparr> \<in> set ps)"
proof -
  have l: "map_sum id length (aggregate quarter_txs) = Inr 3"
    by code_simp
  have mu: "map_sum id (\<lambda>m. mean (column m ''shopping'')) (aggregate quarter_txs) = Inr 200"
    by code_simp
  have "list_all (\<lambda>t. valid_date (s_date t)) quarter_txs"
    by (simp add: quarter_txs_def valid_date_def)
  then obtain m where m: "aggregate quarter_txs = Inr m"
    using aggregate_total by blast
  from l mu m have h: "length m = 3" "mean (column m ''shopping'') = 200" by simp_all
  from trend_is_mean_times_multiplier [of m 12 quarter_txs zero_model 2024] m h
  have "\<exists>r ps. forecast zero_model quarter_txs 2024 12 = Inr r
         \<and> resp_predictions r = Some ps
         \<and> \<lparr>category = ''shopping'', predicted_amount = 360, confidence = 3 / 5\<rparr> \<in> set ps"
    by blast
  with l mu show ?thesis by blast
qed

subsection \<open>The Forecast Orchestrator\<close>

text \<open>
  C4.  A request whose dates are well-formed is always answered, never refused; when its
  aggregated history has fewer than 12 distinct months the answer is the Trend
  Fallback's, with the method tag \<open>trend_fallback\<close> and confidence 0.6 on every
  prediction.
\<close>

theorem short_history_uses_trend_fallback:
  assumes "list_all (\<lambda>t. valid_date (s_date t)) txs"
  shows "\<exists>m r. aggregate txs = Inr m \<and> forecast model txs ty tm = Inr r
           \<and> (card (set (map fst m)) < 12 \<longrightarrow>
                resp_method r = ''trend_fallback''
                \<and> resp_predictions r = Some (trend_fallback m tm)
                \<and> (\<forall>p\<in>set (trend_fallback m tm). confidence p = 3 / 5))"
proof -
  from aggregate_total [OF assms] obtain m where m: "aggregate txs = Inr m" ..
  then obtain r where r: "forecast model txs ty tm = Inr r"
    by (simp add: forecast_def)
  have "resp_method r = ''trend_fallback'' \<and> resp_predictions r = Some (trend_fallback m tm)
          \<and> (\<forall>p\<in>set (trend_fallback m tm). confidence p = 3 / 5)"
    if "card (set (map fst m)) < 12"
  proof -
    from months_of_matrix [OF m] that have "length m < 12" by simp
    from forecast_short [OF m this, of model ty tm] r show ?thesis
      by (auto simp: confidence_trend)
  qed
  with m r show ?thesis by blast
qed

theorem short_history_uses_trend_fallback_witness:
  "list_all (\<lambda>t. valid_date (s_date t)) quarter_txs
   \<and> map_sum id (\<lambda>m. card (set (map fst m))) (aggregate quarter_txs) = Inr 3
   \<and> (\<exists>r ps. forecast zero_model quarter_txs 2024 12 = Inr r
         \<and> resp_method r = ''trend_fallback'' \<and> resp_predictions r = Some ps
         \<and> list_all (\<lambda>p. confidence p = 3 / 5) ps)"
proof -
  have v: "list_all (\<lambda>t. valid_date (s_date t)) quarter_txs"
    by (simp add: quarter_txs_def valid_date_def)
  have c: "map_sum id (\<lambda>m. card (set (map fst m))) (aggregate quarter_txs) = Inr 3"
    by code_simp
  from short_history_uses_trend_fallback [OF v, of zero_model 2024 12]
  obtain m r where m: "aggregate quarter_txs = Inr m"
    and r: "forecast zero_model quarter_txs 2024 12 = Inr r"
    and i: "card (set (map fst m)) < 12 \<longrightarrow>
                resp_method r = ''trend_fallback''
                \<and> resp_predictions r = Some (trend_fallback m 12)
                \<and> (\<forall>p\<in>set (trend_fallback m 12). confidence p = 3 / 5)"
    by blast
  from c m have "card (set (map fst m)) < 12" by simp
  with i r
  have "\<exists>r ps. forecast zero_model quarter_txs 2024 12 = Inr r
         \<and> resp_method r = ''trend_fallback'' \<and> resp_predictions r = Some ps
         \<and> list_all (\<lambda>p. confidence p = 3 / 5) ps"
    by (simp add: list_all_iff)
  with v c show ?thesis by blast
qed

subsection \<open>The Feature Scaler\<close>

lemma fit_bounds:
  assumes "v \<in> set (column m c)"
  shows "fst (fit m c) \<le> v" and "v \<le> snd (fit m c)"
proof -
  from assms obtain x xs where col: "column m c = x # xs"
    by (cases "column m c") auto
  then have f: "fit m c = (Min (set (column m c)), Max (set (column m c)))"
    by (simp only: fit_def list.case Min.set_eq_fold Max.set_eq_fold)
  have fin: "finite (set (column m c))" by simp
  show "fst (fit m c) \<le> v" and "v \<le> snd (fit m c)"
    using Min_le [OF fin assms] Max_ge [OF fin assms] by (simp_all add: f)
qed

lemma transform_value_defined: "transform_value st c v \<noteq> None"
  by (cases "st c") (simp add: transform_value_def divide_checked_def del: not_None_eq)

text \<open>
  C7.  For every matrix, every category and every value of that category in the matrix,
  transforming the value with the state fitted on the matrix and transforming back gives
  the value floored at 0: the value itself when it is not negative, and then within
  every tolerance of it.
\<close>

theorem scaler_round_trip:
  assumes "v \<in> set (column m c)"
  shows "\<exists>x. transform_value (fit m) c v = Some x
            \<and> inverse_transform x c (fit m) = max 0 v
            \<and> (0 \<le> v \<longrightarrow> inverse_transform x c (fit m) = v
                  \<and> (\<forall>eps. 0 \<le> eps \<longrightarrow> \<bar>inverse_transform x c (fit m) - v\<bar> \<le> eps))"
proof -
  obtain mn mx where st: "fit m c = (mn, mx)" by (cases "fit m c")
  from fit_bounds [OF assms] st have b: "mn \<le> v" "v \<le> mx" by simp_all
  have fin: ?thesis
    if "transform_value (fit m) c v = Some x"
      and "inverse_transform x c (fit m) = max 0 v" for x
    using that by (intro exI [of _ x]) (simp add: max_def)
  show ?thesis
  proof (cases "mx = mn")
    case True
    with b have v: "v = mn" by simp
    have "transform_value (fit m) c v = Some (1 / 2)"
      using st True by (simp add: transform_value_def)
    moreover have "inverse_transform (1 / 2) c (fit m) = max 0 v"
      using st True v by (simp add: inverse_transform_def)
    ultimately show ?thesis by (rule fin)
  next
    case False
    with b have pos: "0 < mx - mn" by simp
    let ?q = "(v - mn) / (mx - mn)"
    from b pos have q: "0 \<le> ?q" "?q \<le> 1" by simp_all
    then have cl: "clamp01 ?q = ?q" by (simp add: clamp01_def)
    have t: "transform_value (fit m) c v = Some ?q"
      using st False cl by (simp add: transform_value_def divide_checked_def)
    from pos have "?q * (mx - mn) + mn = v" by simp
    then have "inverse_transform ?q c (fit m) = max 0 v"
      using st by (simp add: inverse_transform_def)
    with t show ?thesis by (rule fin)
  qed
qed

theorem scaler_round_trip_witness:
  "200 \<in> set (column quarter_matrix ''shopping'')
   \<and> fit quarter_matrix ''shopping'' = (150, 250)
   \<and> transform_value (fit quarter_matrix) ''shopping'' 200 = Some (1 / 2)
   \<and> inverse_transform (1 / 2) ''shopping'' (fit quarter_matrix) = 200
   \<and> fit quarter_matrix ''food'' = (40, 40)
   \<and> transform_value (fit quarter_matrix) ''food'' 40 = Some (1 / 2)
   \<and> inverse_transform (1 / 2) ''food'' (fit quarter_matrix) = 40"
proof -
  have h: "200 \<in> set (column quarter_matrix ''shopping'')" by code_simp
  have f: "fit quarter_matrix ''shopping'' = (150, 250)" by code_simp
  have t: "transform_value (fit quarter_matrix) ''shopping'' 200 = Some (1 / 2)" by code_simp
  from scaler_round_trip [OF h] obtain x
    where tx: "transform_value (fit quarter_matrix) ''shopping'' 200 = Some x"
      and ix: "inverse_transform x ''shopping'' (fit quarter_matrix) = max 0 200"
    by blast
  from tx t have x: "x = 1 / 2" by (metis option.inject)
  from ix have "inverse_transform (1 / 2) ''shopping'' (fit quarter_matrix) = max 0 200"
    unfolding x .
  then have i: "inverse_transform (1 / 2) ''shopping'' (fit quarter_matrix) = 200"
    by simp
  have h': "40 \<in> set (column quarter_matrix ''food'')" by code_simp
  have f': "fit quarter_matrix ''food'' = (40, 40)" by code_simp
  have t': "transform_value (fit quarter_matrix) ''food'' 40 = Some (1 / 2)" by code_simp
  from scaler_round_trip [OF h'] obtain x'
    where tx': "transform_value (fit quarter_matrix) ''food'' 40 = Some x'"
      and ix': "inverse_transform x' ''food'' (fit quarter_matrix) = max 0 40"
    by blast
  from tx' t' have x': "x' = 1 / 2" by (metis option.inject)
  from ix' have "inverse_transform (1 / 2) ''food'' (fit quarter_matrix) = max 0 40"
    unfolding x' .
  then have i': "inverse_transform (1 / 2) ''food'' (fit quarter_matrix) = 40"
    by simp
  show ?thesis
    by (rule conjI [OF h conjI [OF f conjI [OF t conjI [OF i conjI [OF f' conjI [OF t' i']]]]]])
qed

end
